theory Spec2Isabelle
  imports
    Main
    "HOL-Library.AList"
    "HOL-Library.Sublist"
    "HOL-Library.Char_ord"
    "HOL-Library.List_Lexorder"
    "HOL-Library.Multiset"
begin

section \<open>The PISI repository cleaner (repo\_cleaner.py)\<close>

text \<open>
  The script is a straight pipeline: \<open>scan_repository\<close> lists the archive files,
  \<open>parse_packages\<close> decodes the file names and groups them by package,
  \<open>find_redundant\<close> ranks each group and rebuilds the paths of the files beyond the
  newest \<open>count\<close>, and \<open>remove_excess\<close> deletes them after a yes/no prompt.
  Exceptions of the Python code are values of the type \<open>error\<close>.
\<close>

datatype error = ValueError | IndexError | EOFError

subsection \<open>The string operations the script uses\<close>

text \<open>
  \<open>s.split(sep)[0]\<close>: the text before the first occurrence of \<open>sep\<close> in \<open>s\<close>, all of
  \<open>s\<close> when \<open>sep\<close> does not occur.
\<close>

fun before_first :: "string \<Rightarrow> string \<Rightarrow> string" where
  "before_first sep [] = []"
| "before_first sep (c # cs) =
     (if prefix sep (c # cs) then [] else c # before_first sep cs)"

text \<open>
  \<open>s.split(c, n)\<close> for a separator of one character: at most \<open>n\<close> cuts, from the left.
\<close>

fun splitn :: "char \<Rightarrow> nat \<Rightarrow> string \<Rightarrow> string list" where
  "splitn c 0 s = [s]"
| "splitn c (Suc n) [] = [[]]"
| "splitn c (Suc n) (x # xs) =
     (if x = c then [] # splitn c n xs
      else (case splitn c (Suc n) xs of
              [] \<Rightarrow> [[x]]
            | w # ws \<Rightarrow> (x # w) # ws))"

text \<open>
  \<open>s.rsplit(c, n)\<close>: at most \<open>n\<close> cuts, from the right. Cutting a string from the right
  is cutting its reversal from the left.
\<close>

definition rsplit :: "char \<Rightarrow> nat \<Rightarrow> string \<Rightarrow> string list" where
  "rsplit c n s = rev (map rev (splitn c n (rev s)))"

text \<open>\<open>s.split(c)\<close> with no limit on the number of cuts.\<close>

fun split_char :: "char \<Rightarrow> string \<Rightarrow> string list" where
  "split_char c [] = [[]]"
| "split_char c (x # xs) =
     (if x = c then [] # split_char c xs
      else (case split_char c xs of
              [] \<Rightarrow> [[x]]
            | w # ws \<Rightarrow> (x # w) # ws))"

text \<open>\<open>sep.join(parts)\<close>.\<close>

fun join :: "string \<Rightarrow> string list \<Rightarrow> string" where
  "join sep [] = []"
| "join sep [x] = x"
| "join sep (x # y # ys) = x @ sep @ join sep (y # ys)"

text \<open>
  \<open>os.path.join(a, b)\<close> on a POSIX system: an absolute \<open>b\<close> replaces \<open>a\<close>, otherwise
  the two are joined with one slash unless \<open>a\<close> is empty or already ends with one.
\<close>

definition path_join :: "string \<Rightarrow> string \<Rightarrow> string" where
  "path_join a b =
     (if prefix ''/'' b then b
      else if a = [] \<or> suffix ''/'' a then a @ b
      else a @ ''/'' @ b)"

subsection \<open>The package dictionary\<close>

text \<open>
  One element of a package's \<open>versions\<close> list: the directory of the file, the tuple of
  version components with the revision appended, and the value of \<open>parse_version\<close>
  on it. The type \<open>'k\<close> is the type of the values \<open>parse_version\<close> returns; sorting
  needs them linearly ordered.
\<close>

record 'k version_entry =
  path :: string
  version :: "string list"
  comparable_version :: 'k

record 'k package =
  pisi_version :: string
  arch :: string
  versions :: "'k version_entry list"

text \<open>
  A Python dictionary keeps its keys in the order of their first insertion, and
  \<open>find_redundant\<close> iterates over them: the dictionary is an association list, updated
  in place for a key that is present and extended at the end for a new one
  (\<open>AList.update\<close>).
\<close>

type_synonym 'k packages = "(string \<times> 'k package) list"

text \<open>One line of the error log: the file name and its version string.\<close>

type_synonym error_log = "(string \<times> string) list"

subsection \<open>parse\_packages\<close>

text \<open>
  The unpacking assignment of line 101: exactly five parts, anything else raises
  \<open>ValueError\<close>.
\<close>

fun unpack5 :: "string list \<Rightarrow> error + (string \<times> string \<times> string \<times> string \<times> string)" where
  "unpack5 [a, b, c, d, e] = Inr (a, b, c, d, e)"
| "unpack5 _ = Inl ValueError"

text \<open>Lines 99 and 101: strip the extension, split at the last four dashes.\<close>

definition split_file_name ::
  "string \<Rightarrow> error + (string \<times> string \<times> string \<times> string \<times> string)" where
  "split_file_name pisi_file =
     unpack5 (rsplit CHR ''-'' 4 (before_first ''.pisi'' pisi_file))"

text \<open>
  Lines 103 to 106 and the dictionary of line 114: the version tuple is the version
  split at its dots with the revision appended, and \<open>parse_version\<close> is applied to the
  tuple joined with dots again. The parameter \<open>parse_version\<close> stands for the imported
  \<open>packaging.version.parse\<close>; its result \<open>None\<close> is any exception it raises.
\<close>

definition make_entry ::
  "(string \<Rightarrow> 'k option) \<Rightarrow> string \<Rightarrow> string \<Rightarrow> string \<Rightarrow> 'k version_entry option" where
  "make_entry parse_version dir vers revision =
     (let version_tuple = split_char CHR ''.'' vers @ [revision] in
      case parse_version (join ''.'' version_tuple) of
        None \<Rightarrow> None
      | Some cv \<Rightarrow>
          Some \<lparr>path = dir, version = version_tuple, comparable_version = cv\<rparr>)"

text \<open>Lines 112 to 120: \<open>packages.get\<close>, \<open>versions.append\<close>, the two \<open>update\<close> calls.\<close>

definition merge_entry ::
  "string \<Rightarrow> string \<Rightarrow> string \<Rightarrow> 'k version_entry \<Rightarrow> 'k packages \<Rightarrow> 'k packages" where
  "merge_entry package_name pisi_vers arc entry packages =
     (let vs = (case map_of packages package_name of
                  None \<Rightarrow> []
                | Some package \<Rightarrow> versions package)
      in AList.update package_name
           \<lparr>pisi_version = pisi_vers, arch = arc, versions = vs @ [entry]\<rparr>
           packages)"

text \<open>
  The body of the loop of lines 97 to 126, for one scanned file. The unpacking stands
  before the \<open>try\<close>, so its \<open>ValueError\<close> leaves the function; an exception of
  \<open>parse_version\<close> is caught, a line is written to the error log, and the file is
  skipped. The error log is a file: it is returned whether the function raises or not.
\<close>

definition parse_one ::
  "(string \<Rightarrow> 'k option) \<Rightarrow> string \<times> string \<Rightarrow> 'k packages \<Rightarrow> error_log
     \<Rightarrow> (error + 'k packages) \<times> error_log" where
  "parse_one parse_version file packages elog =
     (case file of (dir, pisi_file) \<Rightarrow>
       (case split_file_name pisi_file of
          Inl e \<Rightarrow> (Inl e, elog)
        | Inr (package_name, vers, revision, pisi_vers, arc) \<Rightarrow>
            (case make_entry parse_version dir vers revision of
               None \<Rightarrow> (Inr packages, elog @ [(pisi_file, vers)])
             | Some entry \<Rightarrow>
                 (Inr (merge_entry package_name pisi_vers arc entry packages), elog))))"

fun parse_loop ::
  "(string \<Rightarrow> 'k option) \<Rightarrow> (string \<times> string) list \<Rightarrow> 'k packages \<Rightarrow> error_log
     \<Rightarrow> (error + 'k packages) \<times> error_log" where
  "parse_loop parse_version [] packages elog = (Inr packages, elog)"
| "parse_loop parse_version (file # files) packages elog =
     (case parse_one parse_version file packages elog of
        (Inl e, elog') \<Rightarrow> (Inl e, elog')
      | (Inr packages', elog') \<Rightarrow> parse_loop parse_version files packages' elog')"

definition parse_packages ::
  "(string \<Rightarrow> 'k option) \<Rightarrow> (string \<times> string) list
     \<Rightarrow> (error + 'k packages) \<times> error_log" where
  "parse_packages parse_version pisi_files = parse_loop parse_version pisi_files [] []"

subsection \<open>scan\_repository\<close>

text \<open>
  The argument is what \<open>os.walk(directory)\<close> yields: the directories in the order of
  the walk, each with the names of its files.
\<close>

definition scan_repository :: "(string \<times> string list) list \<Rightarrow> (string \<times> string) list" where
  "scan_repository walk =
     concat (map (\<lambda>(root, files). map (Pair root) (filter (suffix ''.pisi'') files)) walk)"

subsection \<open>find\_redundant\<close>

text \<open>
  \<open>sorted(xs, key=key, reverse=True)\<close>: a stable sort into descending order. CPython
  reverses the list, sorts it stably into ascending order and reverses the result, so
  elements with equal keys keep their original order.
\<close>

definition sorted_reverse :: "('a \<Rightarrow> 'k::linorder) \<Rightarrow> 'a list \<Rightarrow> 'a list" where
  "sorted_reverse key xs = rev (sort_key key (rev xs))"

text \<open>
  The slice \<open>xs[i:]\<close>; a negative \<open>i\<close> counts from the end. The argument
  \<open>count\<close> of the script (\<open>keep\<close> below) is read with \<open>type=int\<close>, so it may be
  negative.
\<close>

definition slice_from :: "int \<Rightarrow> 'a list \<Rightarrow> 'a list" where
  "slice_from i xs =
     (if 0 \<le> i then drop (nat i) xs else drop (length xs - nat (- i)) xs)"

text \<open>
  Lines 147 to 154: the file name is rebuilt from the package's name, the version tuple
  of the entry, and the \<open>pisi_version\<close> and \<open>arch\<close> of the package.
  \<open>version['version'][-1]\<close> raises \<open>IndexError\<close> on an empty tuple.
\<close>

definition rebuild_path :: "string \<Rightarrow> 'k package \<Rightarrow> 'k version_entry \<Rightarrow> error + string" where
  "rebuild_path name meta v =
     (if version v = [] then Inl IndexError
      else Inr (path_join (path v)
                  (name @ ''-'' @ join ''.'' (butlast (version v)) @ ''-'' @ last (version v)
                     @ ''-'' @ pisi_version meta @ ''-'' @ arch meta @ ''.pisi'')))"

text \<open>The inner loop of lines 146 to 158, appending to \<open>old_packages\<close>.\<close>

fun append_paths ::
  "string \<Rightarrow> 'k package \<Rightarrow> 'k version_entry list \<Rightarrow> string list \<Rightarrow> error + string list" where
  "append_paths name meta [] old_packages = Inr old_packages"
| "append_paths name meta (v # vs) old_packages =
     (case rebuild_path name meta v of
        Inl e \<Rightarrow> Inl e
      | Inr p \<Rightarrow> append_paths name meta vs (old_packages @ [p]))"

text \<open>Line 145: the entries of one package beyond the newest \<open>count\<close> (here \<open>keep\<close>).\<close>

definition discarded :: "int \<Rightarrow> ('k::linorder) package \<Rightarrow> 'k version_entry list" where
  "discarded keep meta =
     slice_from keep (sorted_reverse comparable_version (versions meta))"

fun find_loop ::
  "int \<Rightarrow> ('k::linorder) packages \<Rightarrow> string list \<Rightarrow> error + string list" where
  "find_loop keep [] old_packages = Inr old_packages"
| "find_loop keep ((name, meta) # rest) old_packages =
     (case append_paths name meta (discarded keep meta) old_packages of
        Inl e \<Rightarrow> Inl e
      | Inr old_packages' \<Rightarrow> find_loop keep rest old_packages')"

definition find_redundant :: "int \<Rightarrow> ('k::linorder) packages \<Rightarrow> error + string list" where
  "find_redundant keep packages = find_loop keep packages []"

subsection \<open>remove\_excess\<close>

text \<open>
  \<open>os.remove\<close> is a parameter: a function from a path and a state of the file system
  to an exception or the next state. The loop has no \<open>try\<close>: the first exception
  leaves it, with the file system as the earlier removals made it.
\<close>

fun remove_excess ::
  "(string \<Rightarrow> 'fs \<Rightarrow> 'e + 'fs) \<Rightarrow> string list \<Rightarrow> 'fs \<Rightarrow> 'e option \<times> 'fs" where
  "remove_excess os_remove [] fs = (None, fs)"
| "remove_excess os_remove (package # old_packages) fs =
     (case os_remove package fs of
        Inl e \<Rightarrow> (Some e, fs)
      | Inr fs' \<Rightarrow> remove_excess os_remove old_packages fs')"

text \<open>
  A file system for the examples: the list of the paths that exist. Removing a path that
  is not there raises \<open>FileNotFoundError\<close>.
\<close>

datatype os_error = FileNotFoundError

definition remove_file :: "string \<Rightarrow> string list \<Rightarrow> os_error + string list" where
  "remove_file p fs = (if p \<in> set fs then Inr (removeAll p fs) else Inl FileNotFoundError)"

subsection \<open>yes\_no\_prompt\<close>

text \<open>\<open>c.lower()\<close> on one character.\<close>

definition lower :: "char \<Rightarrow> char" where
  "lower c =
     (if CHR ''A'' \<le> c \<and> c \<le> CHR ''Z'' then char_of (of_char c + (32::nat)) else c)"

text \<open>
  Standard input is the list of the lines still to be read; \<open>input\<close> raises \<open>EOFError\<close>
  when none is left. The function returns the answer and the lines it did not read.
  The message is only printed and is left out.
\<close>

fun yes_no_prompt :: "string list \<Rightarrow> (error + bool) \<times> string list" where
  "yes_no_prompt [] = (Inl EOFError, [])"
| "yes_no_prompt (answer # rest) =
     (if length answer = 0 then (Inr False, rest)
      else if length answer > 0 \<and> lower (hd answer) \<in> {CHR ''y'', CHR ''n''}
        then (Inr (lower (hd answer) = CHR ''y''), rest)
      else yes_no_prompt rest)"

subsection \<open>The main program\<close>

text \<open>
  How a run ends: a call of \<open>exit\<close> with its argument, an exception nobody catches
  (one of the script's own, or one of \<open>os.remove\<close>), or the end of the script. The
  interpreter turns an uncaught exception into the exit code 1 and the end of the script
  into 0.
\<close>

datatype 'e outcome = Exit int | Uncaught error | Uncaught_remove 'e | Finished

fun exit_code :: "'e outcome \<Rightarrow> int" where
  "exit_code (Exit n) = n"
| "exit_code (Uncaught e) = 1"
| "exit_code (Uncaught_remove e) = 1"
| "exit_code Finished = 0"

text \<open>
  What the run sees of the directory argument: \<open>os.path.exists\<close>, \<open>os.path.isdir\<close>
  and \<open>os.walk\<close> on it.
\<close>

record env =
  dir_exists :: bool
  dir_isdir :: bool
  dir_walk :: "(string \<times> string list) list"

text \<open>
  Lines 209 to 237. The result is the outcome, the file system and the error log
  written.
\<close>

definition run ::
  "(string \<Rightarrow> ('k::linorder) option) \<Rightarrow> (string \<Rightarrow> 'fs \<Rightarrow> 'e + 'fs) \<Rightarrow> int \<Rightarrow> env
     \<Rightarrow> string list \<Rightarrow> 'fs \<Rightarrow> 'e outcome \<times> 'fs \<times> error_log" where
  "run parse_version os_remove keep env stdin fs =
     (if \<not> dir_exists env then (Exit (- 1), fs, [])
      else if \<not> dir_isdir env then (Exit (- 2), fs, [])
      else
        let pisi_files = scan_repository (dir_walk env) in
        if pisi_files = [] then (Exit 1, fs, [])
        else
          (case parse_packages parse_version pisi_files of
             (Inl e, elog) \<Rightarrow> (Uncaught e, fs, elog)
           | (Inr packages, elog) \<Rightarrow>
               if packages = [] then (Exit (- 3), fs, elog)
               else
                 (case find_redundant keep packages of
                    Inl e \<Rightarrow> (Uncaught e, fs, elog)
                  | Inr redundant_packages \<Rightarrow>
                      if redundant_packages = [] then (Exit 0, fs, elog)
                      else
                        (case yes_no_prompt stdin of
                           (Inl e, _) \<Rightarrow> (Uncaught e, fs, elog)
                         | (Inr answer, _) \<Rightarrow>
                             if answer then
                               (case remove_excess os_remove redundant_packages fs of
                                  (None, fs') \<Rightarrow> (Finished, fs', elog)
                                | (Some e, fs') \<Rightarrow> (Uncaught_remove e, fs', elog))
                             else (Finished, fs, elog)))))"

text \<open>Lines 203 to 207, then the rest of the script.\<close>

definition main ::
  "(string \<Rightarrow> ('k::linorder) option) \<Rightarrow> (string \<Rightarrow> 'fs \<Rightarrow> 'e + 'fs) \<Rightarrow> int \<Rightarrow> env
     \<Rightarrow> string list \<Rightarrow> 'fs \<Rightarrow> 'e outcome \<times> 'fs \<times> error_log" where
  "main parse_version os_remove keep env stdin fs =
     (if keep = 0 then
        (case yes_no_prompt stdin of
           (Inl e, _) \<Rightarrow> (Uncaught e, fs, [])
         | (Inr answer, stdin') \<Rightarrow>
             if \<not> answer then (Exit 0, fs, [])
             else run parse_version os_remove keep env stdin' fs)
      else run parse_version os_remove keep env stdin fs)"

subsection \<open>The version order\<close>

text \<open>
  Modelled from the spec: the version-ordering algorithm that makes
  \<open>comparableVersion\<close> (section 4.1, step 4). The script imports it
  (\<open>packaging.version.parse\<close>); the library is not part of the repository. Following
  the spec, the string is split on dots; an empty segment fails; a segment of digits only
  is an integer, compared by value; any other segment is compared as a string; an
  alphabetic segment is below every numeric one; keys are compared segment by segment.
\<close>

datatype segment = Alpha string | Numeric nat

fun segment_le :: "segment \<Rightarrow> segment \<Rightarrow> bool" where
  "segment_le (Alpha a) (Alpha b) = (a \<le> b)"
| "segment_le (Alpha a) (Numeric n) = True"
| "segment_le (Numeric m) (Alpha b) = False"
| "segment_le (Numeric m) (Numeric n) = (m \<le> n)"

instantiation segment :: linorder
begin

definition less_eq_segment :: "segment \<Rightarrow> segment \<Rightarrow> bool" where
  "less_eq_segment a b = segment_le a b"

definition less_segment :: "segment \<Rightarrow> segment \<Rightarrow> bool" where
  "less_segment a b = (segment_le a b \<and> \<not> segment_le b a)"

instance
proof
  fix x y z :: segment
  show "(x < y) = (x \<le> y \<and> \<not> y \<le> x)"
    by (simp add: less_eq_segment_def less_segment_def)
  show "x \<le> x"
    by (cases x) (simp_all add: less_eq_segment_def)
  show "x \<le> y \<Longrightarrow> y \<le> z \<Longrightarrow> x \<le> z"
    by (cases x; cases y; cases z) (auto simp: less_eq_segment_def)
  show "x \<le> y \<Longrightarrow> y \<le> x \<Longrightarrow> x = y"
    by (cases x; cases y) (auto simp: less_eq_segment_def)
  show "x \<le> y \<or> y \<le> x"
    by (cases x; cases y) (auto simp: less_eq_segment_def)
qed

end

text \<open>
  Modelled from the spec: a segment of digits only is read as an integer (the parsing of
  the missing \<open>packaging.version.parse\<close>); an empty segment cannot be parsed.
\<close>

definition is_digit :: "char \<Rightarrow> bool" where
  "is_digit c = (CHR ''0'' \<le> c \<and> c \<le> CHR ''9'')"

definition digits_value :: "string \<Rightarrow> nat" where
  "digits_value s = foldl (\<lambda>n c. 10 * n + (of_char c - 48)) 0 s"

definition segment_of :: "string \<Rightarrow> segment option" where
  "segment_of s =
     (if s = [] then None
      else if list_all is_digit s then Some (Numeric (digits_value s))
      else Some (Alpha s))"

text \<open>
  Modelled from the spec: \<open>comparableVersion\<close> of a dotted version string, in place of
  the missing \<open>packaging.version.parse\<close>. \<open>None\<close> is its failure to parse.
\<close>

definition loose_version :: "string \<Rightarrow> segment list option" where
  "loose_version s = those (map segment_of (split_char CHR ''.'' s))"

section \<open>Properties\<close>

subsection \<open>Splitting and joining\<close>

lemma splitn_not_Nil: "splitn c n s \<noteq> []"
  by (induction c n s rule: splitn.induct) (auto split: list.splits)

lemma join_Cons_Cons: "ws \<noteq> [] \<Longrightarrow> join sep (w # ws) = w @ sep @ join sep ws"
  by (cases ws) simp_all

lemma join_splitn: "join [c] (splitn c n s) = s"
proof (induction c n s rule: splitn.induct)
  case (3 c n x xs)
  show ?case
  proof (cases "x = c")
    case True
    with 3 show ?thesis by (simp add: join_Cons_Cons splitn_not_Nil)
  next
    case False
    obtain w ws where ws: "splitn c (Suc n) xs = w # ws"
      using splitn_not_Nil [of c "Suc n" xs] by (cases "splitn c (Suc n) xs") auto
    with 3 False show ?thesis by (cases ws) auto
  qed
qed simp_all

lemma length_splitn:
  "length (splitn c n s) = Suc (min n (length (filter (\<lambda>x. x = c) s)))"
proof (induction c n s rule: splitn.induct)
  case (3 c n x xs)
  then show ?case by (auto split: list.splits simp: splitn_not_Nil)
qed simp_all

lemma join_snoc: "ws \<noteq> [] \<Longrightarrow> join sep (ws @ [w]) = join sep ws @ sep @ w"
  by (induction sep ws rule: join.induct) simp_all

lemma join_rev: "join sep (rev (map rev ws)) = rev (join (rev sep) ws)"
proof (induction "rev sep" ws rule: join.induct)
  case (3 x y ys)
  have "join sep (rev (map rev (x # y # ys))) = join sep (rev (map rev (y # ys)) @ [rev x])"
    by simp
  also have "\<dots> = join sep (rev (map rev (y # ys))) @ sep @ rev x"
    by (rule join_snoc) simp
  also have "\<dots> = rev (join (rev sep) (x # y # ys))"
    using 3 by simp
  finally show ?case .
qed simp_all

lemma join_rsplit: "join [c] (rsplit c n s) = s"
  by (simp add: rsplit_def join_rev join_splitn)

lemma length_rsplit:
  "length (rsplit c n s) = Suc (min n (length (filter (\<lambda>x. x = c) s)))"
  by (simp add: rsplit_def length_splitn flip: rev_filter)

lemma split_char_not_Nil: "split_char c s \<noteq> []"
  by (induction c s rule: split_char.induct) (auto split: list.splits)

lemma join_split_char: "join [c] (split_char c s) = s"
proof (induction c s rule: split_char.induct)
  case (2 c x xs)
  show ?case
  proof (cases "x = c")
    case True
    with 2 show ?thesis by (simp add: join_Cons_Cons split_char_not_Nil)
  next
    case False
    obtain w ws where ws: "split_char c xs = w # ws"
      using split_char_not_Nil [of c xs] by (cases "split_char c xs") auto
    with 2 False show ?thesis by (cases ws) auto
  qed
qed simp

lemma unpack5_Inr:
  "unpack5 ws = Inr (a, b, c, d, e) \<longleftrightarrow> ws = [a, b, c, d, e]"
  by (induction ws rule: unpack5.induct) auto

lemma unpack5_Inl: "unpack5 ws = Inl err \<Longrightarrow> err = ValueError"
  by (induction ws rule: unpack5.induct) auto

lemma unpack5_length: "length ws \<noteq> 5 \<Longrightarrow> unpack5 ws = Inl ValueError"
  by (induction ws rule: unpack5.induct) auto



subsection \<open>A file name that cannot be unpacked\<close>

lemma split_file_name_Inl: "split_file_name f = Inl e \<Longrightarrow> e = ValueError"
  by (auto simp: split_file_name_def dest: unpack5_Inl)

lemma parse_one_Inl:
  "parse_one pv scanned packages elog = (Inl e, elog') \<Longrightarrow> e = ValueError"
  by (auto simp: parse_one_def split: prod.splits sum.splits option.splits
           dest: split_file_name_Inl)

lemma parse_loop_Inl:
  "parse_loop pv files packages elog = (Inl e, elog') \<Longrightarrow> e = ValueError"
proof (induction files arbitrary: packages elog)
  case (Cons scanned rest)
  then show ?case
    by (auto split: prod.splits sum.splits dest: parse_one_Inl)
qed simp

lemma few_dashes_split_file_name:
  assumes "length (filter (\<lambda>x. x = CHR ''-'') (before_first ''.pisi'' f)) < 4"
  shows "split_file_name f = Inl ValueError"
  using assms by (simp add: split_file_name_def unpack5_length length_rsplit)

lemma parse_loop_malformed:
  assumes "(dir, f) \<in> set files"
    and "split_file_name f = Inl ValueError"
  shows "fst (parse_loop pv files packages elog) = Inl ValueError"
  using assms
proof (induction files arbitrary: packages elog)
  case (Cons scanned rest)
  show ?case
  proof (cases "parse_one pv scanned packages elog")
    case (Pair r elog')
    show ?thesis
    proof (cases r)
      case (Inl e)
      with Pair parse_one_Inl [of pv scanned packages elog e elog'] show ?thesis by simp
    next
      case (Inr packages')
      with Pair Cons.prems have "(dir, f) \<in> set rest"
        by (auto simp: parse_one_def)
      with Inr Pair Cons show ?thesis by simp
    qed
  qed
qed simp

lemma malformed_name_raises:
  assumes "(dir, f) \<in> set files"
    and "length (filter (\<lambda>x. x = CHR ''-'') (before_first ''.pisi'' f)) < 4"
  shows "fst (parse_packages pv files) = Inl ValueError"
  using assms by (simp add: parse_packages_def parse_loop_malformed few_dashes_split_file_name)

text \<open>
  C1. The claim: a file name with fewer than four dashes fails with an error that is
  logged and skipped, and the other entries of the scan are still parsed. The code does
  not do this: the unpacking of line 101 stands before the \<open>try\<close> of line 105, so the
  \<open>ValueError\<close> leaves \<open>parse_packages\<close> and no package map is returned, whatever
  \<open>parse_version\<close> is and although the two other names of this scan are well-formed.
\<close>

theorem malformed_name_aborts_scan:
  "fst (parse_packages parse_version
     [(''/repo/f/firefox'', ''firefox-70.0-1-p2-x86_64.pisi''),
      (''/repo/b'', ''bad-file.pisi''),
      (''/repo/s/spotify'', ''spotify-1.1.10.546-15-p2-x86_64.pisi'')])
   = Inl ValueError"
  by (rule malformed_name_raises [where dir = "''/repo/b''" and f = "''bad-file.pisi''"]) simp_all

subsection \<open>The deletion pass\<close>

lemma remove_excess_append:
  "remove_excess os_remove (xs @ ys) fs =
     (case remove_excess os_remove xs fs of
        (None, fs1) \<Rightarrow> remove_excess os_remove ys fs1
      | (Some e, fs1) \<Rightarrow> (Some e, fs1))"
  by (induction xs arbitrary: fs) (auto split: sum.splits)

text \<open>
  C7, as the claim states it, fails: the second path of the list exists and could be
  removed, but the failure on the first path leaves \<open>remove_excess\<close> with the
  exception, and the second file is still there.
\<close>

theorem remove_failure_aborts_counterexample:
  "remove_excess remove_file [''/r/b-1-1-p2-x.pisi'', ''/r/c-1-1-p2-x.pisi'']
     [''/r/c-1-1-p2-x.pisi'']
   = (Some FileNotFoundError, [''/r/c-1-1-p2-x.pisi''])"
  by code_simp

text \<open>
  C7, amended. The files are removed in the order of the list with no handling of
  errors: when the removals of \<open>done\<close> succeed and the removal of \<open>package\<close> raises,
  the exception leaves \<open>remove_excess\<close>, the files of \<open>done\<close> are removed and nothing
  of \<open>rest\<close> is attempted.
\<close>

theorem remove_excess_stops_at_first_failure:
  assumes "remove_excess os_remove done fs = (None, fs1)"
    and "os_remove package fs1 = Inl e"
  shows "remove_excess os_remove (done @ package # rest) fs = (Some e, fs1)"
  using assms by (simp add: remove_excess_append)

theorem remove_excess_stops_at_first_failure_witness:
  "remove_excess remove_file [''/r/a-1-1-p2-x.pisi''] [''/r/a-1-1-p2-x.pisi'', ''/r/c-1-1-p2-x.pisi'']
     = (None, [''/r/c-1-1-p2-x.pisi''])
   \<and> remove_file ''/r/b-1-1-p2-x.pisi'' [''/r/c-1-1-p2-x.pisi''] = Inl FileNotFoundError
   \<and> remove_excess remove_file
        ([''/r/a-1-1-p2-x.pisi''] @ ''/r/b-1-1-p2-x.pisi'' # [''/r/c-1-1-p2-x.pisi''])
        [''/r/a-1-1-p2-x.pisi'', ''/r/c-1-1-p2-x.pisi'']
     = (Some FileNotFoundError, [''/r/c-1-1-p2-x.pisi''])"
proof -
  have a: "remove_excess remove_file [''/r/a-1-1-p2-x.pisi'']
             [''/r/a-1-1-p2-x.pisi'', ''/r/c-1-1-p2-x.pisi''] = (None, [''/r/c-1-1-p2-x.pisi''])"
    by code_simp
  have b: "remove_file ''/r/b-1-1-p2-x.pisi'' [''/r/c-1-1-p2-x.pisi''] = Inl FileNotFoundError"
    by code_simp
  show ?thesis
    using remove_excess_stops_at_first_failure [OF a b, of "[''/r/c-1-1-p2-x.pisi'']"] a b
    by simp
qed

subsection \<open>Ranking a group\<close>

lemma mset_sorted_reverse: "mset (sorted_reverse key xs) = mset xs"
  by (simp add: sorted_reverse_def)

lemma sorted_sorted_reverse: "sorted (rev (map key (sorted_reverse key xs)))"
  by (simp add: sorted_reverse_def rev_map)

lemma sorted_reverse_stable:
  "filter (\<lambda>x. key x = k) (sorted_reverse key xs) = filter (\<lambda>x. key x = k) xs"
  by (simp add: sorted_reverse_def sort_key_stable rev_filter flip: rev_filter)

lemma sorted_reverse_unique:
  assumes m: "mset ys = mset xs"
    and s: "sorted (rev (map key ys))"
    and st: "\<And>k. filter (\<lambda>x. key x = k) ys = filter (\<lambda>x. key x = k) xs"
  shows "ys = sorted_reverse key xs"
proof -
  have "sort_key key (rev xs) = rev ys"
  proof (rule properties_for_sort_key)
    show "mset (rev ys) = mset (rev xs)" using m by simp
    show "sorted (map key (rev ys))" using s by (simp add: rev_map)
    fix k
    have "filter (\<lambda>x. key x = key k) ys = filter (\<lambda>x. key x = key k) xs" by (rule st)
    then have "rev (filter (\<lambda>x. key x = key k) ys) = rev (filter (\<lambda>x. key x = key k) xs)"
      by simp
    then show "filter (\<lambda>x. key k = key x) (rev ys) = filter (\<lambda>x. key k = key x) (rev xs)"
      by (simp add: rev_filter eq_commute)
  qed
  then show ?thesis by (simp add: sorted_reverse_def)
qed

lemma slice_from_0: "slice_from 0 xs = xs"
  by (simp add: slice_from_def)

lemma discarded_0: "discarded 0 meta = sorted_reverse comparable_version (versions meta)"
  by (simp add: discarded_def slice_from_0)

text \<open>
  C6. The ranking of a group (\<open>discarded 0 meta\<close>, the group with nothing kept) is a
  stable sort, newest first, on \<open>comparable_version\<close>: it is a rearrangement of the
  group's entries, its keys descend, and the entries of every one key stand in the order
  of the scan. The discard set for any \<open>count\<close> is a slice of it. Such a ranking is
  unique, so the discard list is a function of the package map alone: \<open>find_redundant\<close>
  reads nothing else and leaves the map as it was (\<open>sorted\<close> builds a new list), and a
  second run on the same map gives the same list.
\<close>

theorem ranking_is_stable_sort_newest_first:
  fixes meta :: "('k::linorder) package"
  shows "mset (discarded 0 meta) = mset (versions meta)
    \<and> sorted (rev (map comparable_version (discarded 0 meta)))
    \<and> (\<forall>k. filter (\<lambda>v. comparable_version v = k) (discarded 0 meta)
            = filter (\<lambda>v. comparable_version v = k) (versions meta))
    \<and> (\<forall>keep. discarded keep meta = slice_from keep (discarded 0 meta))
    \<and> (\<forall>ys. mset ys = mset (versions meta)
            \<and> sorted (rev (map comparable_version ys))
            \<and> (\<forall>k. filter (\<lambda>v. comparable_version v = k) ys
                   = filter (\<lambda>v. comparable_version v = k) (versions meta))
          \<longrightarrow> ys = discarded 0 meta)"
  unfolding discarded_0
  by (intro conjI allI impI)
     (simp_all add: mset_sorted_reverse sorted_sorted_reverse sorted_reverse_stable
        sorted_reverse_unique discarded_def)

theorem ranking_is_stable_sort_newest_first_witness:
  "[\<lparr>path = ''/r/b'', version = [''2'', ''1''], comparable_version = 2::nat\<rparr>,
    \<lparr>path = ''/r/a'', version = [''1'', ''1''], comparable_version = 1\<rparr>,
    \<lparr>path = ''/r/c'', version = [''1'', ''1''], comparable_version = 1\<rparr>]
     = discarded 0 \<lparr>pisi_version = ''p2'', arch = ''x86_64'', versions =
        [\<lparr>path = ''/r/a'', version = [''1'', ''1''], comparable_version = 1::nat\<rparr>,
         \<lparr>path = ''/r/b'', version = [''2'', ''1''], comparable_version = 2\<rparr>,
         \<lparr>path = ''/r/c'', version = [''1'', ''1''], comparable_version = 1\<rparr>]\<rparr>"
  (is "?ys = discarded 0 ?M")
proof -
  have u: "mset ?ys = mset (versions ?M)
            \<and> sorted (rev (map comparable_version ?ys))
            \<and> (\<forall>k. filter (\<lambda>v. comparable_version v = k) ?ys
                   = filter (\<lambda>v. comparable_version v = k) (versions ?M))"
    by auto
  from ranking_is_stable_sort_newest_first [of ?M] have
    "\<forall>ys. mset ys = mset (versions ?M)
            \<and> sorted (rev (map comparable_version ys))
            \<and> (\<forall>k. filter (\<lambda>v. comparable_version v = k) ys
                   = filter (\<lambda>v. comparable_version v = k) (versions ?M))
          \<longrightarrow> ys = discarded 0 ?M"
    by (elim conjE)
  from this [THEN spec, THEN mp, OF u] show ?thesis .
qed

subsection \<open>The retention rule\<close>

lemma sorted_reverse_drop_le_take:
  assumes "d \<in> set (drop n (sorted_reverse key xs))"
    and "k \<in> set (take n (sorted_reverse key xs))"
  shows "key d \<le> key k"
proof -
  let ?r = "sorted_reverse key xs"
  have "rev (map key ?r) = rev (map key (drop n ?r)) @ rev (map key (take n ?r))"
    by (metis append_take_drop_id map_append rev_append)
  then have "sorted (rev (map key (drop n ?r)) @ rev (map key (take n ?r)))"
    using sorted_sorted_reverse [of key xs] by simp
  then have "\<forall>x \<in> set (rev (map key (drop n ?r))). \<forall>y \<in> set (rev (map key (take n ?r))). x \<le> y"
    unfolding sorted_append by blast
  with assms show ?thesis by auto
qed

lemma append_paths_acc:
  "append_paths name meta vs old = Inr ps \<Longrightarrow>
     map Inr ps = map Inr old @ map (rebuild_path name meta) vs"
  by (induction vs arbitrary: old) (auto split: sum.splits)

lemma find_loop_acc:
  "find_loop keep packages old = Inr ps \<Longrightarrow>
     map Inr ps = map Inr old
       @ concat (map (\<lambda>(name, meta). map (rebuild_path name meta) (discarded keep meta)) packages)"
proof (induction keep packages old rule: find_loop.induct)
  case (2 keep name meta rest old)
  then obtain mid where mid: "append_paths name meta (discarded keep meta) old = Inr mid"
    and rest: "find_loop keep rest mid = Inr ps"
    by (auto split: sum.splits)
  from 2(1) [OF mid rest] append_paths_acc [OF mid] show ?case by simp
qed simp

text \<open>
  C4. For a count that is not negative, the discard set of a group is its ranking from
  index \<open>count\<close> on: as many entries as the group has beyond \<open>count\<close>, none of them
  newer than a kept one; two of five for \<open>count = 3\<close>; the whole group for
  \<open>count = 0\<close>. The list \<open>find_redundant\<close> returns is made of the rebuilt paths of
  these entries, group after group.
\<close>

theorem discard_set_is_rank_beyond_keep:
  fixes meta :: "('k::linorder) package" and packages :: "'k packages"
  assumes "0 \<le> keep"
  shows "discarded keep meta = drop (nat keep) (discarded 0 meta)
    \<and> length (discarded keep meta) = length (versions meta) - nat keep
    \<and> (\<forall>i < length (discarded keep meta).
          discarded keep meta ! i = discarded 0 meta ! (nat keep + i))
    \<and> (\<forall>d \<in> set (discarded keep meta). \<forall>k \<in> set (take (nat keep) (discarded 0 meta)).
          comparable_version d \<le> comparable_version k)
    \<and> (length (versions meta) = 5 \<and> keep = 3 \<longrightarrow> length (discarded keep meta) = 2)
    \<and> (keep = 0 \<longrightarrow> mset (discarded keep meta) = mset (versions meta))
    \<and> (\<forall>ps. find_redundant keep packages = Inr ps \<longrightarrow>
          map Inr ps
            = concat (map (\<lambda>(name, meta). map (rebuild_path name meta) (discarded keep meta))
                        packages))"
proof -
  have d: "discarded keep meta = drop (nat keep) (discarded 0 meta)"
    using assms by (simp add: discarded_def slice_from_def)
  have l: "length (discarded 0 meta) = length (versions meta)"
    by (simp add: discarded_0 sorted_reverse_def)
  have o: "\<forall>d \<in> set (discarded keep meta). \<forall>k \<in> set (take (nat keep) (discarded 0 meta)).
          comparable_version d \<le> comparable_version k"
    unfolding d discarded_0
    using sorted_reverse_drop_le_take [of _ "nat keep" comparable_version "versions meta"]
    by blast
  have f: "\<forall>ps. find_redundant keep packages = Inr ps \<longrightarrow>
          map Inr ps
            = concat (map (\<lambda>(name, meta). map (rebuild_path name meta) (discarded keep meta))
                        packages)"
    using find_loop_acc [of keep packages "[]"] by (simp add: find_redundant_def)
  have m: "keep = 0 \<longrightarrow> mset (discarded keep meta) = mset (versions meta)"
    by (simp add: discarded_0 mset_sorted_reverse)
  have len: "length (discarded keep meta) = length (versions meta) - nat keep"
    using d l by simp
  have nth: "\<forall>i < length (discarded keep meta).
          discarded keep meta ! i = discarded 0 meta ! (nat keep + i)"
    using d l by simp
  have five: "length (versions meta) = 5 \<and> keep = 3 \<longrightarrow> length (discarded keep meta) = 2"
    using len by auto
  show ?thesis
    using d len nth o five m f by blast
qed

theorem discard_set_is_rank_beyond_keep_witness:
  "(0::int) \<le> 3
   \<and> length (discarded 3 \<lparr>pisi_version = ''p2'', arch = ''x86_64'', versions =
        [\<lparr>path = ''/r'', version = [''1'', ''1''], comparable_version = 1::nat\<rparr>,
         \<lparr>path = ''/r'', version = [''5'', ''1''], comparable_version = 5\<rparr>,
         \<lparr>path = ''/r'', version = [''3'', ''1''], comparable_version = 3\<rparr>,
         \<lparr>path = ''/r'', version = [''2'', ''1''], comparable_version = 2\<rparr>,
         \<lparr>path = ''/r'', version = [''4'', ''1''], comparable_version = 4\<rparr>]\<rparr>) = 2"
  (is "_ \<and> length (discarded 3 ?M) = 2")
proof -
  have h: "(0::int) \<le> 3" by simp
  have five: "length (versions ?M) = 5 \<and> (3::int) = 3" by simp
  from discard_set_is_rank_beyond_keep [OF h, of ?M "[]"] have
    "length (versions ?M) = 5 \<and> (3::int) = 3 \<longrightarrow> length (discarded 3 ?M) = 2"
    by (elim conjE)
  then have "length (discarded 3 ?M) = 2" using five by (rule mp)
  with h show ?thesis by (rule conjI)
qed

subsection \<open>Numeric version segments\<close>

lemma loose_1_2_0:
  "loose_version ''1.2.0.1'' = Some [Numeric 1, Numeric 2, Numeric 0, Numeric 1]"
  by code_simp

lemma loose_1_10_0:
  "loose_version ''1.10.0.1'' = Some [Numeric 1, Numeric 10, Numeric 0, Numeric 1]"
  by code_simp

lemma loose_1_9_0:
  "loose_version ''1.9.0.1'' = Some [Numeric 1, Numeric 9, Numeric 0, Numeric 1]"
  by code_simp

lemma Numeric_le: "Numeric m \<le> Numeric n \<longleftrightarrow> m \<le> n"
  by (simp add: less_eq_segment_def)

lemma Numeric_less: "Numeric m < Numeric n \<longleftrightarrow> m < n"
  by (auto simp: less_segment_def)

lemma split_1_2_0: "split_char CHR ''.'' ''1.2.0'' = [''1'', ''2'', ''0'']"
  by code_simp
lemma split_1_10_0: "split_char CHR ''.'' ''1.10.0'' = [''1'', ''10'', ''0'']"
  by code_simp
lemma split_1_9_0: "split_char CHR ''.'' ''1.9.0'' = [''1'', ''9'', ''0'']"
  by code_simp

text \<open>
  C3. A package with the versions 1.2.0, 1.10.0 and 1.9.0, each with revision 1, in any
  directories and with any tool version and architecture, is ranked 1.10.0, 1.9.0,
  1.2.0: the segments 10 and 9 are compared as numbers, although the version tuple of
  1.10.0 is below that of 1.9.0 in the order of strings.
\<close>

theorem numeric_segments_rank_by_value:
  assumes "make_entry loose_version d1 ''1.2.0'' ''1'' = Some e1"
    and "make_entry loose_version d2 ''1.10.0'' ''1'' = Some e2"
    and "make_entry loose_version d3 ''1.9.0'' ''1'' = Some e3"
  shows "discarded 0 \<lparr>pisi_version = tool, arch = arc, versions = [e1, e2, e3]\<rparr> = [e2, e3, e1]
    \<and> comparable_version e1 < comparable_version e3
    \<and> comparable_version e3 < comparable_version e2
    \<and> version e2 < version e3"
proof -
  have 1: "e1 = \<lparr>path = d1, version = [''1'', ''2'', ''0'', ''1''],
                  comparable_version = [Numeric 1, Numeric 2, Numeric 0, Numeric 1]\<rparr>"
    using assms(1) loose_1_2_0 unfolding make_entry_def split_1_2_0 by simp
  have 2: "e2 = \<lparr>path = d2, version = [''1'', ''10'', ''0'', ''1''],
                  comparable_version = [Numeric 1, Numeric 10, Numeric 0, Numeric 1]\<rparr>"
    using assms(2) loose_1_10_0 unfolding make_entry_def split_1_10_0 by simp
  have 3: "e3 = \<lparr>path = d3, version = [''1'', ''9'', ''0'', ''1''],
                  comparable_version = [Numeric 1, Numeric 9, Numeric 0, Numeric 1]\<rparr>"
    using assms(3) loose_1_9_0 unfolding make_entry_def split_1_9_0 by simp
  have a: "comparable_version e1 < comparable_version e3"
    unfolding 1 3 by (simp add: Numeric_less)
  have b: "comparable_version e3 < comparable_version e2"
    unfolding 2 3 by (simp add: Numeric_less)
  have c: "discarded 0 \<lparr>pisi_version = tool, arch = arc, versions = [e1, e2, e3]\<rparr> = [e2, e3, e1]"
    using a b by (simp add: discarded_def slice_from_def sorted_reverse_def)
  have d: "version e2 < version e3"
    unfolding 2 3 by (simp add: less_char_def)
  show ?thesis using a b c d by simp
qed

theorem numeric_segments_rank_by_value_witness:
  "make_entry loose_version ''/r'' ''1.2.0'' ''1''
     = Some \<lparr>path = ''/r'', version = [''1'', ''2'', ''0'', ''1''],
              comparable_version = [Numeric 1, Numeric 2, Numeric 0, Numeric 1]\<rparr>
   \<and> make_entry loose_version ''/r'' ''1.10.0'' ''1''
     = Some \<lparr>path = ''/r'', version = [''1'', ''10'', ''0'', ''1''],
              comparable_version = [Numeric 1, Numeric 10, Numeric 0, Numeric 1]\<rparr>
   \<and> make_entry loose_version ''/r'' ''1.9.0'' ''1''
     = Some \<lparr>path = ''/r'', version = [''1'', ''9'', ''0'', ''1''],
              comparable_version = [Numeric 1, Numeric 9, Numeric 0, Numeric 1]\<rparr>
   \<and> discarded 0 \<lparr>pisi_version = ''p2'', arch = ''x86_64'', versions =
        [\<lparr>path = ''/r'', version = [''1'', ''2'', ''0'', ''1''],
           comparable_version = [Numeric 1, Numeric 2, Numeric 0, Numeric 1]\<rparr>,
         \<lparr>path = ''/r'', version = [''1'', ''10'', ''0'', ''1''],
           comparable_version = [Numeric 1, Numeric 10, Numeric 0, Numeric 1]\<rparr>,
         \<lparr>path = ''/r'', version = [''1'', ''9'', ''0'', ''1''],
           comparable_version = [Numeric 1, Numeric 9, Numeric 0, Numeric 1]\<rparr>]\<rparr>
     = [\<lparr>path = ''/r'', version = [''1'', ''10'', ''0'', ''1''],
           comparable_version = [Numeric 1, Numeric 10, Numeric 0, Numeric 1]\<rparr>,
        \<lparr>path = ''/r'', version = [''1'', ''9'', ''0'', ''1''],
           comparable_version = [Numeric 1, Numeric 9, Numeric 0, Numeric 1]\<rparr>,
        \<lparr>path = ''/r'', version = [''1'', ''2'', ''0'', ''1''],
           comparable_version = [Numeric 1, Numeric 2, Numeric 0, Numeric 1]\<rparr>]"
  (is "?m1 \<and> ?m2 \<and> ?m3 \<and> ?r")
proof -
  have 1: ?m1 by code_simp
  have 2: ?m2 by code_simp
  have 3: ?m3 by code_simp
  from numeric_segments_rank_by_value [OF 1 2 3, of "''p2''" "''x86_64''"]
  have ?r by (rule conjunct1)
  with 1 2 3 show ?thesis by (intro conjI)
qed

subsection \<open>The main program: exit codes and confirmation\<close>

lemma main_declined:
  "keep = 0 \<Longrightarrow> fst (yes_no_prompt answers) = Inr False \<Longrightarrow>
     main parse_version os_remove keep env answers fs = (Exit 0, fs, [])"
  by (cases "yes_no_prompt answers") (simp add: main_def)

lemma main_eof:
  "keep = 0 \<Longrightarrow> fst (yes_no_prompt answers) = Inl e \<Longrightarrow>
     main parse_version os_remove keep env answers fs = (Uncaught e, fs, [])"
  by (cases "yes_no_prompt answers") (simp add: main_def)

lemma main_passed:
  "keep \<noteq> 0 \<or> fst (yes_no_prompt answers) = Inr True \<Longrightarrow>
     main parse_version os_remove keep env answers fs
       = run parse_version os_remove keep env
           (if keep = 0 then snd (yes_no_prompt answers) else answers) fs"
  by (cases "yes_no_prompt answers") (auto simp add: main_def)

lemma main_cases:
  "(keep = 0 \<and> fst (yes_no_prompt answers) = Inr False)
   \<or> (keep = 0 \<and> (\<exists>e. fst (yes_no_prompt answers) = Inl e))
   \<or> (keep \<noteq> 0 \<or> fst (yes_no_prompt answers) = Inr True)"
  by (cases "fst (yes_no_prompt answers)") auto

lemma run_Exit_iff:
  fixes parse_version :: "string \<Rightarrow> ('k::linorder) option"
    and os_remove :: "string \<Rightarrow> 'fs \<Rightarrow> 'e + 'fs"
  shows "fst (run parse_version os_remove keep env stdin fs) = Exit n \<longleftrightarrow>
     (n = - 1 \<and> \<not> dir_exists env)
   \<or> (n = - 2 \<and> dir_exists env \<and> \<not> dir_isdir env)
   \<or> (n = 1 \<and> dir_exists env \<and> dir_isdir env \<and> scan_repository (dir_walk env) = [])
   \<or> (n = - 3 \<and> dir_exists env \<and> dir_isdir env \<and> scan_repository (dir_walk env) \<noteq> []
        \<and> fst (parse_packages parse_version (scan_repository (dir_walk env))) = Inr [])
   \<or> (n = 0 \<and> dir_exists env \<and> dir_isdir env \<and> scan_repository (dir_walk env) \<noteq> []
        \<and> (\<exists>packages. packages \<noteq> []
              \<and> fst (parse_packages parse_version (scan_repository (dir_walk env)))
                  = Inr packages
              \<and> find_redundant keep packages = Inr []))"
  by (auto simp: run_def Let_def split: prod.splits sum.splits option.splits)

lemma run_Finished_iff:
  fixes parse_version :: "string \<Rightarrow> ('k::linorder) option"
    and os_remove :: "string \<Rightarrow> 'fs \<Rightarrow> 'e + 'fs"
  shows "fst (run parse_version os_remove keep env stdin fs) = Finished \<longleftrightarrow>
     dir_exists env \<and> dir_isdir env \<and> scan_repository (dir_walk env) \<noteq> []
      \<and> (\<exists>packages redundant. packages \<noteq> [] \<and> redundant \<noteq> []
            \<and> fst (parse_packages parse_version (scan_repository (dir_walk env)))
                = Inr packages
            \<and> find_redundant keep packages = Inr redundant
            \<and> (fst (yes_no_prompt stdin) = Inr False
                 \<or> fst (yes_no_prompt stdin) = Inr True
                    \<and> fst (remove_excess os_remove redundant fs) = None))"
  by (auto simp: run_def Let_def split: prod.splits sum.splits option.splits)

lemma run_unconfirmed:
  fixes parse_version :: "string \<Rightarrow> ('k::linorder) option"
    and os_remove :: "string \<Rightarrow> 'fs \<Rightarrow> 'e + 'fs"
  assumes "fst (yes_no_prompt stdin) \<noteq> Inr True"
  shows "fst (snd (run parse_version os_remove keep env stdin fs)) = fs
    \<and> (\<forall>e. fst (run parse_version os_remove keep env stdin fs) \<noteq> Uncaught_remove e)"
  using assms
  by (auto simp: run_def Let_def split: prod.splits sum.splits option.splits)

text \<open>
  C8, as the claim states it, fails: the confirmation of \<open>count = 0\<close> (lines 203 to
  207) stands before the checks of the directory. With \<open>count = 0\<close> and the answer
  \<open>n\<close> the run ends with \<open>exit(0)\<close>, although the directory does not exist.
\<close>

theorem exit_codes_counterexample:
  "\<not> dir_exists \<lparr>dir_exists = False, dir_isdir = False, dir_walk = []\<rparr>
   \<and> exit_code (fst (main loose_version remove_file 0
         \<lparr>dir_exists = False, dir_isdir = False, dir_walk = []\<rparr> [''n''] [])) = 0
   \<and> exit_code (fst (main loose_version remove_file 0
         \<lparr>dir_exists = False, dir_isdir = False, dir_walk = []\<rparr> [''n''] [])) \<noteq> - 1"
proof -
  have "main loose_version remove_file 0
          \<lparr>dir_exists = False, dir_isdir = False, dir_walk = []\<rparr> [''n''] []
        = (Exit 0, [], [])"
    by code_simp
  then show ?thesis by simp
qed

text \<open>
  C8, amended. For a run that is past the confirmation of \<open>count = 0\<close> (the count is
  not zero, or the answer was yes) the exit code is -1 when the directory does not
  exist, -2 when the path exists and is not a directory, 1 when the scan finds no
  archive, -3 when \<open>parse_packages\<close> returns an empty package map, and 0 when no
  package is redundant or when the removal was declined or went through. A declined
  confirmation of \<open>count = 0\<close> ends the run with the exit code 0 before the directory
  is looked at.
\<close>

theorem exit_codes:
  fixes parse_version :: "string \<Rightarrow> ('k::linorder) option"
    and os_remove :: "string \<Rightarrow> 'fs \<Rightarrow> 'e + 'fs"
  shows
   "(keep \<noteq> 0 \<or> fst (yes_no_prompt answers) = Inr True \<longrightarrow>
      (\<not> dir_exists env \<longrightarrow>
         exit_code (fst (main parse_version os_remove keep env answers fs)) = - 1)
    \<and> (dir_exists env \<and> \<not> dir_isdir env \<longrightarrow>
         exit_code (fst (main parse_version os_remove keep env answers fs)) = - 2)
    \<and> (dir_exists env \<and> dir_isdir env \<and> scan_repository (dir_walk env) = [] \<longrightarrow>
         exit_code (fst (main parse_version os_remove keep env answers fs)) = 1)
    \<and> (dir_exists env \<and> dir_isdir env \<and> scan_repository (dir_walk env) \<noteq> []
        \<and> fst (parse_packages parse_version (scan_repository (dir_walk env))) = Inr [] \<longrightarrow>
         exit_code (fst (main parse_version os_remove keep env answers fs)) = - 3)
    \<and> (\<forall>packages. dir_exists env \<and> dir_isdir env
        \<and> scan_repository (dir_walk env) \<noteq> [] \<and> packages \<noteq> []
        \<and> fst (parse_packages parse_version (scan_repository (dir_walk env)))
            = Inr packages
        \<and> find_redundant keep packages = Inr [] \<longrightarrow>
         exit_code (fst (main parse_version os_remove keep env answers fs)) = 0)
    \<and> (\<forall>packages redundant. dir_exists env \<and> dir_isdir env
        \<and> scan_repository (dir_walk env) \<noteq> [] \<and> packages \<noteq> [] \<and> redundant \<noteq> []
        \<and> fst (parse_packages parse_version (scan_repository (dir_walk env)))
            = Inr packages
        \<and> find_redundant keep packages = Inr redundant
        \<and> (fst (yes_no_prompt (if keep = 0 then snd (yes_no_prompt answers) else answers))
              = Inr False
           \<or> fst (yes_no_prompt (if keep = 0 then snd (yes_no_prompt answers) else answers))
              = Inr True
             \<and> fst (remove_excess os_remove redundant fs) = None) \<longrightarrow>
         exit_code (fst (main parse_version os_remove keep env answers fs)) = 0))
  \<and> (keep = 0 \<and> fst (yes_no_prompt answers) = Inr False \<longrightarrow>
        exit_code (fst (main parse_version os_remove keep env answers fs)) = 0)"
  (is "(?passed \<longrightarrow> ?codes) \<and> (?declined \<longrightarrow> ?zero)")
proof -
  let ?stdin = "if keep = 0 then snd (yes_no_prompt answers) else answers"
  let ?r = "run parse_version os_remove keep env ?stdin fs"
  have a: "?passed \<longrightarrow> ?codes"
  proof (rule impI)
    assume ?passed
    then have m: "main parse_version os_remove keep env answers fs = ?r"
      by (rule main_passed)
    have 1: "\<not> dir_exists env \<longrightarrow> exit_code (fst ?r) = - 1"
      by (simp add: run_def)
    have 2: "dir_exists env \<and> \<not> dir_isdir env \<longrightarrow> exit_code (fst ?r) = - 2"
      by (simp add: run_def)
    have 3: "dir_exists env \<and> dir_isdir env \<and> scan_repository (dir_walk env) = []
               \<longrightarrow> exit_code (fst ?r) = 1"
      by (simp add: run_def)
    have 4: "dir_exists env \<and> dir_isdir env \<and> scan_repository (dir_walk env) \<noteq> []
          \<and> fst (parse_packages parse_version (scan_repository (dir_walk env))) = Inr []
          \<longrightarrow> exit_code (fst ?r) = - 3"
    proof (rule impI)
      assume h: "dir_exists env \<and> dir_isdir env \<and> scan_repository (dir_walk env) \<noteq> []
          \<and> fst (parse_packages parse_version (scan_repository (dir_walk env))) = Inr []"
      then have "fst ?r = Exit (- 3)"
        unfolding run_Exit_iff by simp
      then show "exit_code (fst ?r) = - 3" by simp
    qed
    have 5: "\<forall>packages. dir_exists env \<and> dir_isdir env
          \<and> scan_repository (dir_walk env) \<noteq> [] \<and> packages \<noteq> []
          \<and> fst (parse_packages parse_version (scan_repository (dir_walk env)))
              = Inr packages
          \<and> find_redundant keep packages = Inr [] \<longrightarrow> exit_code (fst ?r) = 0"
    proof (intro allI impI)
      fix packages
      assume h: "dir_exists env \<and> dir_isdir env
          \<and> scan_repository (dir_walk env) \<noteq> [] \<and> packages \<noteq> []
          \<and> fst (parse_packages parse_version (scan_repository (dir_walk env)))
              = Inr packages
          \<and> find_redundant keep packages = Inr []"
      then have "fst ?r = Exit 0"
        unfolding run_Exit_iff by blast
      then show "exit_code (fst ?r) = 0" by simp
    qed
    have 6: "\<forall>packages redundant. dir_exists env \<and> dir_isdir env
          \<and> scan_repository (dir_walk env) \<noteq> [] \<and> packages \<noteq> [] \<and> redundant \<noteq> []
          \<and> fst (parse_packages parse_version (scan_repository (dir_walk env)))
              = Inr packages
          \<and> find_redundant keep packages = Inr redundant
          \<and> (fst (yes_no_prompt ?stdin) = Inr False
             \<or> fst (yes_no_prompt ?stdin) = Inr True
               \<and> fst (remove_excess os_remove redundant fs) = None)
          \<longrightarrow> exit_code (fst ?r) = 0"
    proof (intro allI impI)
      fix packages redundant
      assume h: "dir_exists env \<and> dir_isdir env
          \<and> scan_repository (dir_walk env) \<noteq> [] \<and> packages \<noteq> [] \<and> redundant \<noteq> []
          \<and> fst (parse_packages parse_version (scan_repository (dir_walk env)))
              = Inr packages
          \<and> find_redundant keep packages = Inr redundant
          \<and> (fst (yes_no_prompt ?stdin) = Inr False
             \<or> fst (yes_no_prompt ?stdin) = Inr True
               \<and> fst (remove_excess os_remove redundant fs) = None)"
      then have "fst ?r = Finished"
        unfolding run_Finished_iff by blast
      then show "exit_code (fst ?r) = 0" by simp
    qed
    from 1 2 3 4 5 6 show ?codes
      unfolding m by (intro conjI)
  qed
  have b: "?declined \<longrightarrow> ?zero"
  proof (rule impI)
    assume ?declined
    then have "main parse_version os_remove keep env answers fs = (Exit 0, fs, [])"
      by (intro main_declined) simp_all
    then show ?zero by simp
  qed
  from a b show ?thesis by (rule conjI)
qed

theorem exit_codes_witness:
  "(2::int) \<noteq> 0
   \<and> \<not> dir_exists \<lparr>dir_exists = False, dir_isdir = False, dir_walk = []\<rparr>
   \<and> exit_code (fst (main loose_version remove_file 2
          \<lparr>dir_exists = False, dir_isdir = False, dir_walk = []\<rparr> [] []))
     = - 1
   \<and> (0::int) = 0 \<and> fst (yes_no_prompt [''n'']) = Inr False
   \<and> exit_code (fst (main loose_version remove_file 0
          \<lparr>dir_exists = True, dir_isdir = True,
             dir_walk = [(''/r'', [''firefox-70.0-1-p2-x86_64.pisi''])]\<rparr> [''n'']
          [''/r/firefox-70.0-1-p2-x86_64.pisi'']))
     = 0"
proof -
  have p: "(2::int) \<noteq> 0 \<or> fst (yes_no_prompt []) = Inr True" by simp
  have d: "\<not> dir_exists \<lparr>dir_exists = False, dir_isdir = False, dir_walk = []\<rparr>" by simp
  have n: "(0::int) = 0 \<and> fst (yes_no_prompt [''n'']) = Inr False" by code_simp
  note t1 = exit_codes [where parse_version = loose_version and os_remove = remove_file
      and keep = 2 and answers = "[]" and fs = "[]"
      and env = "\<lparr>dir_exists = False, dir_isdir = False, dir_walk = []\<rparr>"]
  note t2 = exit_codes [where parse_version = loose_version and os_remove = remove_file
      and keep = 0 and answers = "[''n'']" and fs = "[''/r/firefox-70.0-1-p2-x86_64.pisi'']"
      and env = "\<lparr>dir_exists = True, dir_isdir = True,
             dir_walk = [(''/r'', [''firefox-70.0-1-p2-x86_64.pisi''])]\<rparr>"]
  have a: "exit_code (fst (main loose_version remove_file 2
          \<lparr>dir_exists = False, dir_isdir = False, dir_walk = []\<rparr> [] [])) = - 1"
    by (rule t1 [THEN conjunct1, THEN mp, OF p, THEN conjunct1, THEN mp, OF d])
  have b: "exit_code (fst (main loose_version remove_file 0
          \<lparr>dir_exists = True, dir_isdir = True,
             dir_walk = [(''/r'', [''firefox-70.0-1-p2-x86_64.pisi''])]\<rparr> [''n'']
          [''/r/firefox-70.0-1-p2-x86_64.pisi''])) = 0"
    by (rule t2 [THEN conjunct2, THEN mp, OF n])
  have z: "(2::int) \<noteq> 0" by simp
  from z d a n b show ?thesis by (intro conjI) simp_all
qed

text \<open>
  C9. No deletion without a confirmation. An empty line makes the prompt answer no. When
  the run changed the file system, or \<open>os.remove\<close> raised, the prompt before the
  removal had answered yes, and for \<open>count = 0\<close> the first prompt had answered yes
  too. With \<open>count = 0\<close> and the answer no the run ends with \<open>exit(0)\<close>, and without
  the answer yes it leaves the file system as it was and writes no error log.
\<close>

theorem no_deletion_without_confirmation:
  fixes parse_version :: "string \<Rightarrow> ('k::linorder) option"
    and os_remove :: "string \<Rightarrow> 'fs \<Rightarrow> 'e + 'fs"
  shows
   "yes_no_prompt ([] # rest) = (Inr False, rest)
  \<and> (fst (snd (main parse_version os_remove keep env answers fs)) \<noteq> fs
       \<or> (\<exists>e. fst (main parse_version os_remove keep env answers fs) = Uncaught_remove e)
     \<longrightarrow> (keep = 0 \<longrightarrow> fst (yes_no_prompt answers) = Inr True)
       \<and> fst (yes_no_prompt (if keep = 0 then snd (yes_no_prompt answers) else answers))
           = Inr True)
  \<and> (keep = 0 \<and> fst (yes_no_prompt answers) = Inr False
     \<longrightarrow> main parse_version os_remove keep env answers fs = (Exit 0, fs, []))
  \<and> (keep = 0 \<and> fst (yes_no_prompt answers) \<noteq> Inr True
     \<longrightarrow> snd (main parse_version os_remove keep env answers fs) = (fs, []))"
proof -
  let ?m = "main parse_version os_remove keep env answers fs"
  let ?stdin = "if keep = 0 then snd (yes_no_prompt answers) else answers"
  have a: "yes_no_prompt ([] # rest) = (Inr False, rest)" by simp
  consider (declined) "keep = 0" "fst (yes_no_prompt answers) = Inr False"
    | (eof) e where "keep = 0" "fst (yes_no_prompt answers) = Inl e"
    | (passed) "keep \<noteq> 0 \<or> fst (yes_no_prompt answers) = Inr True"
    using main_cases [of keep answers] by blast
  then have rest: "(fst (snd ?m) \<noteq> fs \<or> (\<exists>e. fst ?m = Uncaught_remove e)
     \<longrightarrow> (keep = 0 \<longrightarrow> fst (yes_no_prompt answers) = Inr True)
       \<and> fst (yes_no_prompt ?stdin) = Inr True)
    \<and> (keep = 0 \<and> fst (yes_no_prompt answers) = Inr False \<longrightarrow> ?m = (Exit 0, fs, []))
    \<and> (keep = 0 \<and> fst (yes_no_prompt answers) \<noteq> Inr True \<longrightarrow> snd ?m = (fs, []))"
  proof cases
    case declined
    then have "?m = (Exit 0, fs, [])" by (rule main_declined)
    with declined show ?thesis by simp
  next
    case eof
    then have "?m = (Uncaught e, fs, [])" by (rule main_eof)
    with eof show ?thesis by simp
  next
    case passed
    then have m: "?m = run parse_version os_remove keep env ?stdin fs"
      by (rule main_passed)
    have "fst (yes_no_prompt ?stdin) \<noteq> Inr True \<longrightarrow>
            fst (snd ?m) = fs \<and> (\<forall>e. fst ?m \<noteq> Uncaught_remove e)"
      unfolding m by (rule impI) (rule run_unconfirmed)
    moreover have "\<not> (keep = 0 \<and> fst (yes_no_prompt answers) = Inr False)"
      using passed by auto
    moreover have "\<not> (keep = 0 \<and> fst (yes_no_prompt answers) \<noteq> Inr True)"
      using passed by auto
    ultimately show ?thesis by blast
  qed
  with a show ?thesis by (rule conjI)
qed

theorem no_deletion_without_confirmation_witness:
  "(0::int) = 0 \<and> fst (yes_no_prompt [''''] ) = Inr False
   \<and> main loose_version remove_file 0
        \<lparr>dir_exists = True, dir_isdir = True,
           dir_walk = [(''/r'', [''firefox-70.0-1-p2-x86_64.pisi''])]\<rparr> ['''']
        [''/r/firefox-70.0-1-p2-x86_64.pisi'']
      = (Exit 0, [''/r/firefox-70.0-1-p2-x86_64.pisi''], [])"
proof -
  have h: "(0::int) = 0 \<and> fst (yes_no_prompt ['''']) = Inr False" by simp
  from no_deletion_without_confirmation
    [where parse_version = loose_version and os_remove = remove_file and keep = 0
       and answers = "['''']" and fs = "[''/r/firefox-70.0-1-p2-x86_64.pisi'']"
       and env = "\<lparr>dir_exists = True, dir_isdir = True,
           dir_walk = [(''/r'', [''firefox-70.0-1-p2-x86_64.pisi''])]\<rparr>"] h
  have "main loose_version remove_file 0
        \<lparr>dir_exists = True, dir_isdir = True,
           dir_walk = [(''/r'', [''firefox-70.0-1-p2-x86_64.pisi''])]\<rparr> ['''']
        [''/r/firefox-70.0-1-p2-x86_64.pisi'']
      = (Exit 0, [''/r/firefox-70.0-1-p2-x86_64.pisi''], [])"
    by blast
  with h show ?thesis by simp
qed

subsection \<open>Where the extension is cut\<close>





subsection \<open>The tool version and architecture of a group\<close>

lemma map_of_merge_entry_same:
  "\<exists>vs. map_of (merge_entry name tool arc entry packages) name
          = Some \<lparr>pisi_version = tool, arch = arc, versions = vs @ [entry]\<rparr>"
  by (simp add: merge_entry_def Let_def update_conv')

lemma map_of_merge_entry_other:
  "other \<noteq> name \<Longrightarrow>
     map_of (merge_entry name tool arc entry packages) other = map_of packages other"
  by (simp add: merge_entry_def Let_def update_conv')

lemma parse_loop_append:
  "parse_loop pv (xs @ ys) packages elog =
     (case parse_loop pv xs packages elog of
        (Inl e, elog') \<Rightarrow> (Inl e, elog')
      | (Inr packages', elog') \<Rightarrow> parse_loop pv ys packages' elog')"
  by (induction xs arbitrary: packages elog) (auto split: prod.splits sum.splits)

lemma parse_one_keeps_other:
  assumes "parse_one pv (d, f) packages elog = (Inr packages', elog')"
    and "\<forall>n v r t a. split_file_name f = Inr (n, v, r, t, a) \<longrightarrow>
           make_entry pv d v r \<noteq> None \<longrightarrow> n \<noteq> name"
  shows "map_of packages' name = map_of packages name"
  using assms
  by (auto simp: parse_one_def map_of_merge_entry_other
           split: sum.splits option.splits prod.splits)

lemma parse_loop_keeps_other:
  assumes "parse_loop pv later packages elog = (Inr packages', elog')"
    and "\<forall>(d, f) \<in> set later. \<forall>n v r t a. split_file_name f = Inr (n, v, r, t, a) \<longrightarrow>
           make_entry pv d v r \<noteq> None \<longrightarrow> n \<noteq> name"
  shows "map_of packages' name = map_of packages name"
  using assms
proof (induction later arbitrary: packages elog)
  case (Cons scanned rest)
  obtain d f where sc: "scanned = (d, f)" by (cases scanned)
  from Cons.prems(1) obtain mid elog1 where
    one: "parse_one pv (d, f) packages elog = (Inr mid, elog1)"
    and loop: "parse_loop pv rest mid elog1 = (Inr packages', elog')"
    unfolding sc by (auto split: prod.splits sum.splits)
  have "map_of mid name = map_of packages name"
    using one Cons.prems(2) unfolding sc by (intro parse_one_keeps_other) auto
  moreover have "map_of packages' name = map_of mid name"
    using loop Cons.prems(2) by (intro Cons.IH) auto
  ultimately show ?case by simp
qed simp

text \<open>
  C5. The \<open>pisi_version\<close> and \<open>arch\<close> stored for a package are those of the last
  file of that package that was processed: after a file of the package is merged, the
  files scanned later that are skipped or belong to other packages leave them as they
  are, and every later file of the same package overwrites them.
\<close>

theorem group_metadata_is_last_seen:
  assumes run: "parse_packages pv (earlier @ (dir, pisi_file) # later) = (Inr packages, elog)"
    and name: "split_file_name pisi_file = Inr (name, vers, revision, tool, arc)"
    and entry: "make_entry pv dir vers revision = Some entry"
    and last: "\<forall>(d, f) \<in> set later. \<forall>n v r t a.
           split_file_name f = Inr (n, v, r, t, a) \<longrightarrow>
           make_entry pv d v r \<noteq> None \<longrightarrow> n \<noteq> name"
  shows "\<exists>meta. map_of packages name = Some meta
           \<and> pisi_version meta = tool \<and> arch meta = arc"
proof -
  from run obtain p1 l1 where
    first: "parse_loop pv earlier [] [] = (Inr p1, l1)"
    and rest: "parse_loop pv ((dir, pisi_file) # later) p1 l1 = (Inr packages, elog)"
    by (auto simp: parse_packages_def parse_loop_append split: prod.splits sum.splits)
  have one: "parse_one pv (dir, pisi_file) p1 l1
               = (Inr (merge_entry name tool arc entry p1), l1)"
    using name entry by (simp add: parse_one_def)
  with rest have loop:
    "parse_loop pv later (merge_entry name tool arc entry p1) l1 = (Inr packages, elog)"
    by simp
  have "map_of packages name = map_of (merge_entry name tool arc entry p1) name"
    using loop last by (rule parse_loop_keeps_other)
  with map_of_merge_entry_same [of name tool arc entry p1] show ?thesis by auto
qed

theorem group_metadata_is_last_seen_witness:
  "parse_packages loose_version
     ([(''/r'', ''firefox-70.0-1-p2-x86_64.pisi'')]
        @ (''/r'', ''firefox-71.0-1-p3-i686.pisi'')
        # [(''/s'', ''spotify-1.1.10.546-15-p2-x86_64.pisi'')])
     = (Inr [(''firefox'', \<lparr>pisi_version = ''p3'', arch = ''i686'', versions =
                [\<lparr>path = ''/r'', version = [''70'', ''0'', ''1''],
                   comparable_version = [Numeric 70, Numeric 0, Numeric 1]\<rparr>,
                 \<lparr>path = ''/r'', version = [''71'', ''0'', ''1''],
                   comparable_version = [Numeric 71, Numeric 0, Numeric 1]\<rparr>]\<rparr>),
             (''spotify'', \<lparr>pisi_version = ''p2'', arch = ''x86_64'', versions =
                [\<lparr>path = ''/s'', version = [''1'', ''1'', ''10'', ''546'', ''15''],
                   comparable_version =
                     [Numeric 1, Numeric 1, Numeric 10, Numeric 546, Numeric 15]\<rparr>]\<rparr>)],
        [])
   \<and> split_file_name ''firefox-71.0-1-p3-i686.pisi''
       = Inr (''firefox'', ''71.0'', ''1'', ''p3'', ''i686'')
   \<and> (\<exists>meta. map_of
         [(''firefox'', \<lparr>pisi_version = ''p3'', arch = ''i686'', versions =
                [\<lparr>path = ''/r'', version = [''70'', ''0'', ''1''],
                   comparable_version = [Numeric 70, Numeric 0, Numeric 1]\<rparr>,
                 \<lparr>path = ''/r'', version = [''71'', ''0'', ''1''],
                   comparable_version = [Numeric 71, Numeric 0, Numeric 1]\<rparr>]\<rparr>),
          (''spotify'', \<lparr>pisi_version = ''p2'', arch = ''x86_64'', versions =
                [\<lparr>path = ''/s'', version = [''1'', ''1'', ''10'', ''546'', ''15''],
                   comparable_version =
                     [Numeric 1, Numeric 1, Numeric 10, Numeric 546, Numeric 15]\<rparr>]\<rparr>)]
         ''firefox'' = Some meta
        \<and> pisi_version meta = ''p3'' \<and> arch meta = ''i686'')"
  (is "?run \<and> ?name \<and> ?stored")
proof -
  have run: ?run by code_simp
  have name: ?name by code_simp
  have entry: "make_entry loose_version ''/r'' ''71.0'' ''1''
      = Some \<lparr>path = ''/r'', version = [''71'', ''0'', ''1''],
               comparable_version = [Numeric 71, Numeric 0, Numeric 1]\<rparr>"
    by code_simp
  have sp: "split_file_name ''spotify-1.1.10.546-15-p2-x86_64.pisi''
      = Inr (''spotify'', ''1.1.10.546'', ''15'', ''p2'', ''x86_64'')"
    by code_simp
  have last: "\<forall>(d, f) \<in> set [(''/s'', ''spotify-1.1.10.546-15-p2-x86_64.pisi'')].
        \<forall>n v r t a. split_file_name f = Inr (n, v, r, t, a) \<longrightarrow>
           make_entry loose_version d v r \<noteq> None \<longrightarrow> n \<noteq> ''firefox''"
    using sp by simp
  have ?stored
    by (rule group_metadata_is_last_seen [OF run name entry last])
  with run name show ?thesis by (intro conjI)
qed

subsection \<open>Rebuilding the file name\<close>

text \<open>
  For one file whose name ends with its first \<open>.pisi\<close>, the path rebuilt from the
  entry and from the file's own tool version and architecture is the path of the file.
\<close>

lemma rebuild_path_roundtrip:
  assumes name: "split_file_name pisi_file = Inr (name, vers, revision, tool, arc)"
    and ext: "pisi_file = before_first ''.pisi'' pisi_file @ ''.pisi''"
    and entry: "make_entry pv dir vers revision = Some entry"
  shows "rebuild_path name \<lparr>pisi_version = tool, arch = arc, versions = vs\<rparr> entry
           = Inr (path_join dir pisi_file)"
proof -
  let ?stem = "before_first ''.pisi'' pisi_file"
  from name have "rsplit CHR ''-'' 4 ?stem = [name, vers, revision, tool, arc]"
    by (simp add: split_file_name_def unpack5_Inr)
  then have "join ''-'' [name, vers, revision, tool, arc] = ?stem"
    using join_rsplit [of "CHR ''-''" 4 ?stem] by simp
  then have stem: "name @ ''-'' @ vers @ ''-'' @ revision @ ''-'' @ tool @ ''-'' @ arc = ?stem"
    by simp
  from entry have p: "path entry = dir"
    and v: "version entry = split_char CHR ''.'' vers @ [revision]"
    by (auto simp: make_entry_def Let_def split: option.splits)
  have j: "join ''.'' (split_char CHR ''.'' vers) = vers"
    using join_split_char [of "CHR ''.''" vers] by simp
  have "name @ ''-'' @ join ''.'' (butlast (version entry)) @ ''-'' @ last (version entry)
          @ ''-'' @ tool @ ''-'' @ arc @ ''.pisi''
        = (name @ ''-'' @ vers @ ''-'' @ revision @ ''-'' @ tool @ ''-'' @ arc) @ ''.pisi''"
    by (simp add: v j)
  also have "\<dots> = pisi_file"
    unfolding stem using ext by simp
  finally show ?thesis
    by (simp add: rebuild_path_def v p)
qed

text \<open>
  C2. The claim: the rebuilt file name equals the original one, also when the entries of
  a package differ in tool version or architecture. The code does not do this:
  \<open>find_redundant\<close> takes the tool version and the architecture from the package, where
  they are those of the last file scanned. Of the two firefox archives below, the older
  one is redundant for \<open>count = 1\<close>; it was built with \<open>p2\<close> for \<open>x86_64\<close>, and the
  path returned for it names \<open>p3\<close> and \<open>i686\<close>, a file that was not scanned.
\<close>

theorem rebuilt_name_uses_last_seen_metadata:
  "parse_packages loose_version
     [(''/r'', ''firefox-70.0-1-p2-x86_64.pisi''), (''/r'', ''firefox-71.0-1-p3-i686.pisi'')]
     = (Inr [(''firefox'', \<lparr>pisi_version = ''p3'', arch = ''i686'', versions =
                [\<lparr>path = ''/r'', version = [''70'', ''0'', ''1''],
                   comparable_version = [Numeric 70, Numeric 0, Numeric 1]\<rparr>,
                 \<lparr>path = ''/r'', version = [''71'', ''0'', ''1''],
                   comparable_version = [Numeric 71, Numeric 0, Numeric 1]\<rparr>]\<rparr>)],
        [])
   \<and> find_redundant 1
        [(''firefox'', \<lparr>pisi_version = ''p3'', arch = ''i686'', versions =
                [\<lparr>path = ''/r'', version = [''70'', ''0'', ''1''],
                   comparable_version = [Numeric 70, Numeric 0, Numeric 1]\<rparr>,
                 \<lparr>path = ''/r'', version = [''71'', ''0'', ''1''],
                   comparable_version = [Numeric 71, Numeric 0, Numeric 1]\<rparr>]\<rparr>)]
     = Inr [''/r/firefox-70.0-1-p3-i686.pisi'']
   \<and> path_join ''/r'' ''firefox-70.0-1-p2-x86_64.pisi'' = ''/r/firefox-70.0-1-p2-x86_64.pisi''
   \<and> ''/r/firefox-70.0-1-p3-i686.pisi'' \<noteq> ''/r/firefox-70.0-1-p2-x86_64.pisi''"
  (is "?p \<and> ?f \<and> ?j \<and> ?n")
proof -
  have p: ?p by code_simp
  have f: ?f by code_simp
  have j: ?j by code_simp
  have n: ?n by simp
  from p f j n show ?thesis by (intro conjI)
qed

end
